theory Spec2Isabelle
  imports Main
begin

section \<open>Strings and paths\<close>

text \<open>
  Strings are lists of 8-bit characters, read as the Unicode code points below 256.
  On that range \<open>str.lower\<close> moves \<open>A..Z\<close> and the accented capitals
  \<open>0xC0..0xDE\<close> (except the multiplication sign \<open>0xD7\<close>) up by 32, and
  \<open>str.strip\<close> removes the characters for which \<open>str.isspace\<close> holds.
\<close>

definition is_upper :: "char \<Rightarrow> bool" where
  "is_upper c =
     (let n = (of_char c :: nat)
      in (65 \<le> n \<and> n \<le> 90) \<or> (192 \<le> n \<and> n \<le> 222 \<and> n \<noteq> 215))"

definition lower_char :: "char \<Rightarrow> char" where
  "lower_char c = (if is_upper c then char_of ((of_char c :: nat) + 32) else c)"

definition lower :: "string \<Rightarrow> string" where
  "lower s = map lower_char s"

definition isspace :: "char \<Rightarrow> bool" where
  "isspace c =
     (let n = (of_char c :: nat)
      in (9 \<le> n \<and> n \<le> 13) \<or> (28 \<le> n \<and> n \<le> 32) \<or> n = 133 \<or> n = 160)"

definition strip :: "string \<Rightarrow> string" where
  "strip s = rev (dropWhile isspace (rev (dropWhile isspace s)))"

definition endswith :: "string \<Rightarrow> string \<Rightarrow> bool" where
  "endswith s suf = (length suf \<le> length s \<and> drop (length s - length suf) s = suf)"

text \<open>\<open>s.endswith(t)\<close> for a tuple \<open>t\<close> of suffixes.\<close>

definition endswith_any :: "string \<Rightarrow> string list \<Rightarrow> bool" where
  "endswith_any s sufs = list_ex (endswith s) sufs"

definition digit_char :: "nat \<Rightarrow> char" where
  "digit_char d = (''0123456789'' ! d)"

fun str_nat :: "nat \<Rightarrow> string" where
  "str_nat n =
     (if n < 10 then [digit_char n] else str_nat (n div 10) @ [digit_char (n mod 10)])"

text \<open>\<open>str(n)\<close> of a Python int, as an f-string renders it.\<close>

definition str_int :: "int \<Rightarrow> string" where
  "str_int i = (if i < 0 then ''-'' @ str_nat (nat (- i)) else str_nat (nat i))"

text \<open>A string between single quotes, as the f-strings of the messages write it.\<close>

definition quoted :: "string \<Rightarrow> string" where
  "quoted s = [CHR 0x27] @ s @ [CHR 0x27]"

text \<open>\<open>os.path.join\<close> of two components (POSIX).\<close>

definition path_join :: "string \<Rightarrow> string \<Rightarrow> string" where
  "path_join a b =
     (if b \<noteq> [] \<and> hd b = CHR ''/'' then b
      else if a = [] \<or> last a = CHR ''/'' then a @ b
      else a @ ''/'' @ b)"

section \<open>Configuration\<close>

definition SUPPORTED_EXTENSIONS :: "string list" where
  "SUPPORTED_EXTENSIONS = [''.png'', ''.jpg'', ''.jpeg'', ''.bmp'', ''.gif'', ''.webp'']"

text \<open>The tuple as an f-string renders it: each element in single quotes.\<close>

fun join_with :: "string \<Rightarrow> string list \<Rightarrow> string" where
  "join_with sep [] = []"
| "join_with sep [x] = x"
| "join_with sep (x # y # ys) = x @ sep @ join_with sep (y # ys)"

definition str_tuple :: "string list \<Rightarrow> string" where
  "str_tuple xs = ''('' @ join_with '', '' (map quoted xs) @ '')''"

section \<open>Data model\<close>

record ImageCaptionRequest =
  folder_location :: string

record ImageCaptionResponseItem =
  image_path :: string
  description :: string

record CaptionSummaryResponse =
  total_images_found :: int
  successfully_captioned :: int
  results :: "ImageCaptionResponseItem list"
  message :: string
  errors :: "string list"

datatype http_exception = HTTPException (status_code: nat) (detail: string)

text \<open>The Python values the captioning pipeline may hand back.\<close>

datatype py_val =
    PyNone
  | PyBool bool
  | PyInt int
  | PyStr string
  | PyList "py_val list"
  | PyDict "(py_val \<times> py_val) list"

text \<open>
  The outside world of one request. \<open>captioner\<close> is the global pipeline handle
  (\<open>None\<close> when the start-up initialisation failed); a call of it either raises
  (with the text of the exception) or returns a value. \<open>image_open\<close> stands for
  \<open>Image.open(path).convert("RGB")\<close>: it raises \<open>FileNotFoundError\<close>, raises
  another exception, or yields an image. \<open>listdir\<close> raises \<open>OSError\<close> or
  yields the entry names. \<open>abspath\<close> (which depends on the working directory)
  and \<open>py_str\<close> (the f-string rendering of an arbitrary value) are parameters.
\<close>

datatype engine_outcome = Raises string | Returns py_val

datatype 'img load_outcome = FileNotFoundError | LoadException string | Loaded 'img

record 'img world =
  captioner :: "('img \<Rightarrow> engine_outcome) option"
  isdir :: "string \<Rightarrow> bool"
  listdir :: "string \<Rightarrow> string + string list"
  image_open :: "string \<Rightarrow> 'img load_outcome"
  abspath :: "string \<Rightarrow> string"
  py_str :: "py_val \<Rightarrow> string"

text \<open>The calls made to the outside world, in the order they happen.\<close>

datatype call =
    CallIsDir string
  | CallListDir string
  | CallImageOpen string
  | CallCaptioner string

section \<open>The per-image step\<close>

definition py_type_name :: "py_val \<Rightarrow> string" where
  "py_type_name v =
     (case v of PyNone \<Rightarrow> ''NoneType'' | PyBool _ \<Rightarrow> ''bool'' | PyInt _ \<Rightarrow> ''int''
      | PyStr _ \<Rightarrow> ''str'' | PyList _ \<Rightarrow> ''list'' | PyDict _ \<Rightarrow> ''dict'')"

text \<open>
  Lines 177 to 200: what the \<open>try\<close> block around the captioner call leaves behind,
  either the \<open>msg\<close> of the branch that appends to \<open>errors\<close> (\<open>Inl\<close>) or the
  stripped text (\<open>Inr\<close>). A \<open>generated_text\<close> that is not a string has no
  \<open>strip\<close>: the \<open>AttributeError\<close> is caught by the \<open>except\<close> of line 196.
\<close>

definition msg_caption_raised :: "string \<Rightarrow> string \<Rightarrow> string" where
  "msg_caption_raised filename e =
     ''An error occurred during caption generation for '' @ quoted filename @ '': '' @ e @ ''.''"

definition msg_unexpected_format :: "'img world \<Rightarrow> string \<Rightarrow> py_val \<Rightarrow> string" where
  "msg_unexpected_format w filename first_result =
     ''Caption output format unexpected for '' @ quoted filename @ ''. First element: ''
       @ py_str w first_result @ ''. Skipping.''"

definition msg_empty_output :: "string \<Rightarrow> string" where
  "msg_empty_output filename =
     ''Captioner returned empty or None output for '' @ quoted filename @ ''. Skipping.''"

fun check_output :: "'img world \<Rightarrow> string \<Rightarrow> py_val \<Rightarrow> string + string" where
  "check_output w filename (PyList (PyDict d # rest)) =
     (case map_of d (PyStr ''generated_text'') of
        None \<Rightarrow> Inl (msg_unexpected_format w filename (PyDict d))
      | Some (PyStr t) \<Rightarrow> Inr (strip t)
      | Some v \<Rightarrow>
          Inl (msg_caption_raised filename
                 (quoted (py_type_name v) @ '' object has no attribute '' @ quoted ''strip'')))"
| "check_output w filename (PyList (first_result # rest)) =
     Inl (msg_unexpected_format w filename first_result)"
| "check_output w filename captions_output = Inl (msg_empty_output filename)"

definition generate_caption ::
  "'img world \<Rightarrow> ('img \<Rightarrow> engine_outcome) \<Rightarrow> string \<Rightarrow> 'img \<Rightarrow> string + string" where
  "generate_caption w cap filename img =
     (case cap img of
        Raises e \<Rightarrow> Inl (msg_caption_raised filename e)
      | Returns captions_output \<Rightarrow> check_output w filename captions_output)"

text \<open>
  Lines 146 to 200, one iteration of the loop for \<open>filename\<close>: the calls it
  makes, and either the \<open>msg\<close> it records or the item it appends. Line 156 reads
  \<open>img.mode\<close> inside the \<open>try\<close>, so an \<open>img\<close> that were \<open>None\<close> would
  already be a \<open>LoadException\<close>; the branch of line 168 is never taken.
\<close>

definition msg_not_found :: "string \<Rightarrow> string" where
  "msg_not_found current_image_path_absolute =
     ''Image file not found at '' @ quoted current_image_path_absolute @ ''. Skipping.''"

definition msg_load_failed :: "string \<Rightarrow> string \<Rightarrow> string" where
  "msg_load_failed filename e =
     ''An unexpected error occurred while loading image '' @ quoted filename @ '': '' @ e
       @ ''. Skipping.''"

definition process_image ::
  "'img world \<Rightarrow> ('img \<Rightarrow> engine_outcome) \<Rightarrow> string \<Rightarrow> string
     \<Rightarrow> call list \<times> (string + ImageCaptionResponseItem)" where
  "process_image w cap folder_path filename =
     (let current_image_path_relative = path_join folder_path filename;
          current_image_path_absolute = abspath w current_image_path_relative
      in case image_open w current_image_path_relative of
           FileNotFoundError \<Rightarrow>
             ([CallImageOpen current_image_path_relative],
              Inl (msg_not_found current_image_path_absolute))
         | LoadException e \<Rightarrow>
             ([CallImageOpen current_image_path_relative],
              Inl (msg_load_failed filename e))
         | Loaded img \<Rightarrow>
             ([CallImageOpen current_image_path_relative,
               CallCaptioner current_image_path_relative],
              (case generate_caption w cap filename img of
                 Inl msg \<Rightarrow> Inl msg
               | Inr generated_text \<Rightarrow>
                   Inr \<lparr>image_path = current_image_path_absolute,
                        description = generated_text\<rparr>)))"

section \<open>The loop\<close>

text \<open>
  The state of the loop of line 145: \<open>results\<close>, \<open>errors\<close> and the calls so far.
  Every branch that records a \<open>msg\<close> appends \<open>f"{filename}: {msg}"\<close>.
\<close>

type_synonym loop_state = "ImageCaptionResponseItem list \<times> string list \<times> call list"

fun caption_loop ::
  "'img world \<Rightarrow> ('img \<Rightarrow> engine_outcome) \<Rightarrow> string \<Rightarrow> string list
     \<Rightarrow> loop_state \<Rightarrow> loop_state" where
  "caption_loop w cap folder_path [] st = st"
| "caption_loop w cap folder_path (filename # rest) (rs, es, cs) =
     (case process_image w cap folder_path filename of
        (cs', Inl msg) \<Rightarrow>
          caption_loop w cap folder_path rest (rs, es @ [filename @ '': '' @ msg], cs @ cs')
      | (cs', Inr item) \<Rightarrow>
          caption_loop w cap folder_path rest (rs @ [item], es, cs @ cs'))"

section \<open>The summary message\<close>

text \<open>Lines 205 to 217, as a function of the two counts and the error list.\<close>

definition discrepancy :: "int \<Rightarrow> int \<Rightarrow> string list \<Rightarrow> bool" where
  "discrepancy total_found captioned_count errs =
     (errs = [] \<and> captioned_count < total_found
        \<and> total_found > 0)"

definition additional_info :: string where
  "additional_info =
     '' Some images may have failed processing without explicit error messages being captured in the error list.''"

definition msg_all :: "int \<Rightarrow> string" where
  "msg_all n_total = ''Successfully generated captions for all '' @ str_int n_total
     @ '' found image(s).''"

definition msg_some :: "int \<Rightarrow> int \<Rightarrow> string" where
  "msg_some n n_total = ''Generated captions for '' @ str_int n @ '' out of '' @ str_int n_total
     @ '' found image(s). See errors for details on failures.''"

definition msg_none :: "int \<Rightarrow> string" where
  "msg_none n_total = ''Attempted to process '' @ str_int n_total
     @ '' image(s), but no captions were successfully generated. See errors for details.''"

definition summary_message :: "int \<Rightarrow> int \<Rightarrow> string list \<Rightarrow> string" where
  "summary_message total_found captioned_count errs =
     (let msg =
        (if captioned_count = total_found \<and> total_found > 0
         then msg_all total_found
         else if captioned_count > 0
         then msg_some captioned_count total_found
         else if total_found > 0 \<and> captioned_count = 0
         then msg_none total_found
         else ''No images were processed or found.'')
      in if discrepancy total_found captioned_count errs
         then msg @ additional_info else msg)"

section \<open>The endpoint\<close>

definition msg_no_images :: "string \<Rightarrow> string" where
  "msg_no_images folder_path =
     ''No images with supported extensions '' @ str_tuple SUPPORTED_EXTENSIONS
       @ '' found in the folder: '' @ folder_path"

definition is_image_filename :: "string \<Rightarrow> bool" where
  "is_image_filename f = endswith_any (lower f) SUPPORTED_EXTENSIONS"

definition create_captions_for_images_in_folder ::
  "'img world \<Rightarrow> ImageCaptionRequest
     \<Rightarrow> call list \<times> (http_exception + CaptionSummaryResponse)" where
  "create_captions_for_images_in_folder w request =
     (case captioner w of
        None \<Rightarrow>
          ([], Inl (HTTPException 503 ''Captioning service is unavailable. Model not loaded.''))
      | Some cap \<Rightarrow>
          let folder_path = folder_location request
          in if \<not> isdir w folder_path
             then ([CallIsDir folder_path],
                   Inl (HTTPException 400
                          (''The folder '' @ quoted folder_path
                             @ '' does not exist or is not a directory.'')))
             else
               (case listdir w folder_path of
                  Inl e \<Rightarrow>
                    ([CallIsDir folder_path, CallListDir folder_path],
                     Inl (HTTPException 500
                            (''Could not read directory contents: '' @ folder_path)))
                | Inr all_files_in_dir \<Rightarrow>
                    let image_filenames = filter is_image_filename all_files_in_dir;
                        n_found = int (length image_filenames)
                    in if n_found = 0
                       then ([CallIsDir folder_path, CallListDir folder_path],
                             Inr \<lparr>total_images_found = 0, successfully_captioned = 0,
                                  results = [], message = msg_no_images folder_path,
                                  errors = []\<rparr>)
                       else
                         (case caption_loop w cap folder_path image_filenames
                                 ([], [], [CallIsDir folder_path, CallListDir folder_path]) of
                            (rs, es, cs) \<Rightarrow>
                              let successfully_captioned_count = int (length rs)
                              in (cs,
                                  Inr \<lparr>total_images_found = n_found,
                                       successfully_captioned = successfully_captioned_count,
                                       results = rs,
                                       message =
                                         summary_message n_found successfully_captioned_count es,
                                       errors = es\<rparr>))))"

section \<open>What one candidate contributes\<close>

text \<open>
  The pieces of \<open>process_image\<close> by name: the entry an iteration records, whether
  it is an error, and the calls it makes.
\<close>

definition outcome ::
  "'img world \<Rightarrow> ('img \<Rightarrow> engine_outcome) \<Rightarrow> string \<Rightarrow> string
     \<Rightarrow> string + ImageCaptionResponseItem" where
  "outcome w cap folder_path filename = snd (process_image w cap folder_path filename)"

definition fails ::
  "'img world \<Rightarrow> ('img \<Rightarrow> engine_outcome) \<Rightarrow> string \<Rightarrow> string \<Rightarrow> bool" where
  "fails w cap folder_path filename = isl (outcome w cap folder_path filename)"

definition error_entry ::
  "'img world \<Rightarrow> ('img \<Rightarrow> engine_outcome) \<Rightarrow> string \<Rightarrow> string \<Rightarrow> string" where
  "error_entry w cap folder_path filename =
     filename @ '': '' @ projl (outcome w cap folder_path filename)"

definition caption_item ::
  "'img world \<Rightarrow> ('img \<Rightarrow> engine_outcome) \<Rightarrow> string \<Rightarrow> string
     \<Rightarrow> ImageCaptionResponseItem" where
  "caption_item w cap folder_path filename = projr (outcome w cap folder_path filename)"

definition image_calls ::
  "'img world \<Rightarrow> ('img \<Rightarrow> engine_outcome) \<Rightarrow> string \<Rightarrow> string \<Rightarrow> call list" where
  "image_calls w cap folder_path filename = fst (process_image w cap folder_path filename)"

text \<open>The paths handed to \<open>Image.open\<close>, in order.\<close>

definition opened :: "call list \<Rightarrow> string list" where
  "opened cs = concat (map (\<lambda>c. case c of CallImageOpen p \<Rightarrow> [p] | _ \<Rightarrow> []) cs)"

text \<open>
  The specification's well-formed engine output, in its own words: a non-empty
  result (a list) whose first element has a textual \<open>generated_text\<close> field.
\<close>

definition spec_caption_text :: "py_val \<Rightarrow> string option" where
  "spec_caption_text out =
     (case out of
        PyList (PyDict d # rest) \<Rightarrow>
          (case map_of d (PyStr ''generated_text'') of Some (PyStr t) \<Rightarrow> Some t | _ \<Rightarrow> None)
      | _ \<Rightarrow> None)"

definition well_formed :: "engine_outcome \<Rightarrow> bool" where
  "well_formed r =
     (case r of Raises e \<Rightarrow> False | Returns out \<Rightarrow> spec_caption_text out \<noteq> None)"

text \<open>
  A candidate fails, in the specification's words, when it cannot be decoded or when the
  engine raises or hands back an output that is not well-formed.
\<close>

definition candidate_fails ::
  "'img world \<Rightarrow> ('img \<Rightarrow> engine_outcome) \<Rightarrow> string \<Rightarrow> string \<Rightarrow> bool" where
  "candidate_fails w cap folder_path filename =
     (case image_open w (path_join folder_path filename) of
        Loaded img \<Rightarrow> \<not> well_formed (cap img)
      | _ \<Rightarrow> True)"

section \<open>Concrete directories\<close>

text \<open>
  The scenario of the specification: \<open>a.jpg\<close> decodes, \<open>b.txt\<close> is no image,
  \<open>c.png\<close> is corrupted; a third image \<open>d.gif\<close> decodes as well.
\<close>

definition caption_of :: "nat \<Rightarrow> engine_outcome" where
  "caption_of img =
     Returns (PyList [PyDict [(PyStr ''generated_text'',
        PyStr (if img = 1 then '' a cat on a sofa '' else ''a dog''))]])"

definition scenario_world :: "nat world" where
  "scenario_world =
     \<lparr>captioner = Some caption_of,
      isdir = (\<lambda>p. p = ''/pics''),
      listdir = (\<lambda>p. Inr [''a.jpg'', ''b.txt'', ''c.png'', ''d.gif'']),
      image_open = (\<lambda>p. if p = ''/pics/a.jpg'' then Loaded 1
                         else if p = ''/pics/d.gif'' then Loaded 2
                         else LoadException ''cannot identify image file''),
      abspath = (\<lambda>p. p),
      py_str = (\<lambda>v. ''?'')\<rparr>"

definition pics_request :: ImageCaptionRequest where
  "pics_request = \<lparr>folder_location = ''/pics''\<rparr>"

text \<open>The same directory when the pipeline failed to load at start-up.\<close>

definition unready_world :: "nat world" where
  "unready_world = scenario_world\<lparr>captioner := None\<rparr>"

text \<open>What the endpoint answers on the scenario.\<close>

definition scenario_calls :: "call list" where
  "scenario_calls =
     [CallIsDir ''/pics'', CallListDir ''/pics'', CallImageOpen ''/pics/a.jpg'',
      CallCaptioner ''/pics/a.jpg'', CallImageOpen ''/pics/c.png'',
      CallImageOpen ''/pics/d.gif'', CallCaptioner ''/pics/d.gif'']"

definition scenario_summary :: CaptionSummaryResponse where
  "scenario_summary =
     \<lparr>total_images_found = 3, successfully_captioned = 2,
      results = [\<lparr>image_path = ''/pics/a.jpg'', description = ''a cat on a sofa''\<rparr>,
                 \<lparr>image_path = ''/pics/d.gif'', description = ''a dog''\<rparr>],
      message =
        ''Generated captions for 2 out of 3 found image(s). See errors for details on failures.'',
      errors =
        [''c.png: An unexpected error occurred while loading image 'c.png': cannot identify image file. Skipping.'']\<rparr>"

text \<open>A directory without any image, and a path that is no directory.\<close>

definition notes_world :: "nat world" where
  "notes_world =
     scenario_world\<lparr>listdir := (\<lambda>p. Inr [''notes.txt'', ''archive'', ''photo.png.bak''])\<rparr>"

definition unready_notes_world :: "nat world" where
  "unready_notes_world = notes_world\<lparr>captioner := None\<rparr>"

definition missing_request :: ImageCaptionRequest where
  "missing_request = \<lparr>folder_location = ''/missing''\<rparr>"

text \<open>A directory that holds a subdirectory named like an image.\<close>

definition album_world :: "nat world" where
  "album_world =
     scenario_world
       \<lparr>isdir := (\<lambda>p. p = ''/pics'' \<or> p = ''/pics/album.png''),
        listdir := (\<lambda>p. Inr [''album.png'', ''notes.txt'']),
        image_open := (\<lambda>p. LoadException (''[Errno 21] Is a directory: '' @ quoted p))\<rparr>"

definition album_summary :: CaptionSummaryResponse where
  "album_summary =
     \<lparr>total_images_found = 1, successfully_captioned = 0, results = [],
      message =
        ''Attempted to process 1 image(s), but no captions were successfully generated. See errors for details.'',
      errors =
        [''album.png: An unexpected error occurred while loading image 'album.png': [Errno 21] Is a directory: '/pics/album.png'. Skipping.'']\<rparr>"

text \<open>
  Later requests for the scenario directory: with an engine that raises on the first
  image, with an engine that words its captions differently, and with another rendering
  of values in messages.
\<close>

definition flaky_caption_of :: "nat \<Rightarrow> engine_outcome" where
  "flaky_caption_of img = (if img = 1 then Raises ''CUDA out of memory'' else caption_of img)"

definition flaky_world :: "nat world" where
  "flaky_world = scenario_world\<lparr>captioner := Some flaky_caption_of\<rparr>"

definition flaky_calls :: "call list" where
  "flaky_calls = scenario_calls"

definition flaky_summary :: CaptionSummaryResponse where
  "flaky_summary =
     \<lparr>total_images_found = 3, successfully_captioned = 1,
      results = [\<lparr>image_path = ''/pics/d.gif'', description = ''a dog''\<rparr>],
      message =
        ''Generated captions for 1 out of 3 found image(s). See errors for details on failures.'',
      errors =
        [''a.jpg: An error occurred during caption generation for 'a.jpg': CUDA out of memory.'',
         ''c.png: An unexpected error occurred while loading image 'c.png': cannot identify image file. Skipping.'']\<rparr>"

definition other_caption_of :: "nat \<Rightarrow> engine_outcome" where
  "other_caption_of img =
     Returns (PyList [PyDict [(PyStr ''generated_text'', PyStr ''an animal indoors'')]])"

definition rerun_world :: "nat world" where
  "rerun_world = scenario_world\<lparr>captioner := Some other_caption_of\<rparr>"

definition echo_world :: "nat world" where
  "echo_world = scenario_world\<lparr>py_str := (\<lambda>v. ''<value>'')\<rparr>"

definition rerun_summary :: CaptionSummaryResponse where
  "rerun_summary =
     scenario_summary
       \<lparr>results := [\<lparr>image_path = ''/pics/a.jpg'', description = ''an animal indoors''\<rparr>,
                    \<lparr>image_path = ''/pics/d.gif'', description = ''an animal indoors''\<rparr>]\<rparr>"

section \<open>The loop and the report, in closed form\<close>

lemma caption_loop_eq:
  "caption_loop w cap d fs (rs, es, cs) =
     (rs @ map (caption_item w cap d) (filter (\<lambda>f. \<not> fails w cap d f) fs),
      es @ map (error_entry w cap d) (filter (fails w cap d) fs),
      cs @ concat (map (image_calls w cap d) fs))"
proof (induction fs arbitrary: rs es cs)
  case Nil
  show ?case by simp
next
  case (Cons f fs)
  obtain c r where p: "process_image w cap d f = (c, r)"
    by (cases "process_image w cap d f")
  show ?case
  proof (cases r)
    case (Inl m)
    with p Cons show ?thesis
      by (simp add: fails_def outcome_def error_entry_def image_calls_def)
  next
    case (Inr it)
    with p Cons show ?thesis
      by (simp add: fails_def outcome_def caption_item_def image_calls_def)
  qed
qed

lemma create_ready:
  assumes "captioner w = Some cap" "isdir w d" "listdir w d = Inr entries"
    "folder_location request = d" "filter is_image_filename entries = fs"
  shows "create_captions_for_images_in_folder w request =
    ([CallIsDir d, CallListDir d] @ concat (map (image_calls w cap d) fs),
     Inr \<lparr>total_images_found = int (length fs),
          successfully_captioned = int (length (filter (\<lambda>f. \<not> fails w cap d f) fs)),
          results = map (caption_item w cap d) (filter (\<lambda>f. \<not> fails w cap d f) fs),
          message =
            (if fs = [] then msg_no_images d
             else summary_message (int (length fs))
                    (int (length (filter (\<lambda>f. \<not> fails w cap d f) fs)))
                    (map (error_entry w cap d) (filter (fails w cap d) fs))),
          errors = map (error_entry w cap d) (filter (fails w cap d) fs)\<rparr>)"
proof (cases "fs = []")
  case True
  with assms show ?thesis
    by (simp add: create_captions_for_images_in_folder_def Let_def)
next
  case False
  with assms show ?thesis
    by (simp add: create_captions_for_images_in_folder_def Let_def caption_loop_eq)
qed

lemma create_report_ready:
  assumes "create_captions_for_images_in_folder w request = (calls, Inr rep)"
  shows "\<exists>cap entries. captioner w = Some cap \<and> isdir w (folder_location request)
           \<and> listdir w (folder_location request) = Inr entries"
  using assms
  by (auto simp: create_captions_for_images_in_folder_def Let_def
           split: option.splits if_splits sum.splits prod.splits)

lemma filter_partition_length:
  "length (filter (\<lambda>x. \<not> P x) xs) + length (filter P xs) = length xs"
  by (induction xs) auto

lemma create_report_eq:
  assumes "create_captions_for_images_in_folder w request = (calls, Inr rep)"
  obtains cap entries fs where
    "captioner w = Some cap" "isdir w (folder_location request)"
    "listdir w (folder_location request) = Inr entries"
    "fs = filter is_image_filename entries"
    "calls = [CallIsDir (folder_location request), CallListDir (folder_location request)]
        @ concat (map (image_calls w cap (folder_location request)) fs)"
    "total_images_found rep = int (length fs)"
    "results rep = map (caption_item w cap (folder_location request))
        (filter (\<lambda>f. \<not> fails w cap (folder_location request) f) fs)"
    "errors rep = map (error_entry w cap (folder_location request))
        (filter (fails w cap (folder_location request)) fs)"
    "successfully_captioned rep = int (length (results rep))"
    "message rep =
       (if fs = [] then msg_no_images (folder_location request)
        else summary_message (total_images_found rep) (int (length (results rep))) (errors rep))"
proof -
  obtain cap entries where r: "captioner w = Some cap" "isdir w (folder_location request)"
    "listdir w (folder_location request) = Inr entries"
    using create_report_ready [OF assms] by blast
  define fs where "fs = filter is_image_filename entries"
  note eq = create_ready [OF r refl fs_def [symmetric]]
  show thesis
  proof (rule that [OF r fs_def])
    show "calls = [CallIsDir (folder_location request), CallListDir (folder_location request)]
        @ concat (map (image_calls w cap (folder_location request)) fs)"
      using eq assms by simp
    show "total_images_found rep = int (length fs)"
      using eq assms by auto
    show "results rep = map (caption_item w cap (folder_location request))
        (filter (\<lambda>f. \<not> fails w cap (folder_location request) f) fs)"
      using eq assms by auto
    show "errors rep = map (error_entry w cap (folder_location request))
        (filter (fails w cap (folder_location request)) fs)"
      using eq assms by auto
    show "successfully_captioned rep = int (length (results rep))"
      using eq assms by auto
    show "message rep =
       (if fs = [] then msg_no_images (folder_location request)
        else summary_message (total_images_found rep) (int (length (results rep))) (errors rep))"
      using eq assms by auto
  qed
qed

lemma report_lengths:
  assumes "create_captions_for_images_in_folder w request = (calls, Inr rep)"
  shows "int (length (results rep)) + int (length (errors rep)) = total_images_found rep"
    and "successfully_captioned rep = int (length (results rep))"
proof -
  from assms obtain cap entries fs where
    t: "total_images_found rep = int (length fs)" and
    r: "results rep = map (caption_item w cap (folder_location request))
        (filter (\<lambda>f. \<not> fails w cap (folder_location request) f) fs)" and
    e: "errors rep = map (error_entry w cap (folder_location request))
        (filter (fails w cap (folder_location request)) fs)" and
    s: "successfully_captioned rep = int (length (results rep))"
    by (rule create_report_eq)
  have "length (results rep) + length (errors rep) = length fs"
    unfolding r e by (simp add: filter_partition_length)
  with t show "int (length (results rep)) + int (length (errors rep)) = total_images_found rep"
    by simp
  from s show "successfully_captioned rep = int (length (results rep))" .
qed

lemma scenario_report:
  "create_captions_for_images_in_folder scenario_world pics_request =
     (scenario_calls, Inr scenario_summary)"
  by code_simp

lemma msg_no_images_text:
  "msg_no_images d =
     ''No images with supported extensions ('.png', '.jpg', '.jpeg', '.bmp', '.gif', '.webp') found in the folder: '' @ d"
  by (simp add: msg_no_images_def str_tuple_def SUPPORTED_EXTENSIONS_def quoted_def)

lemma notes_filter:
  "filter is_image_filename [''notes.txt'', ''archive'', ''photo.png.bak''] = []"
  by code_simp

lemma caption_loop_step:
  "caption_loop w cap d (f # rest) (rs, es, cs) =
     (if fails w cap d f
      then caption_loop w cap d rest (rs, es @ [error_entry w cap d f], cs @ image_calls w cap d f)
      else caption_loop w cap d rest (rs @ [caption_item w cap d f], es, cs @ image_calls w cap d f))"
  by (simp add: caption_loop_eq)

lemma report_message:
  assumes c: "create_captions_for_images_in_folder w request = (calls, Inr rep)"
    and pos: "0 < total_images_found rep"
  shows "message rep =
      summary_message (total_images_found rep) (int (length (results rep))) (errors rep)"
proof -
  from c obtain fs :: "string list" where t: "total_images_found rep = int (length fs)" and
    m: "message rep = (if fs = [] then msg_no_images (folder_location request)
        else summary_message (total_images_found rep) (int (length (results rep))) (errors rep))"
    by (rule create_report_eq) blast
  from t pos have "fs \<noteq> []" by auto
  with m show ?thesis by simp
qed


section \<open>Which candidates fail\<close>

lemma check_output_text:
  "spec_caption_text out = Some t \<Longrightarrow> check_output w f out = Inr (strip t)"
  by (induction w f out rule: check_output.induct)
     (auto simp: spec_caption_text_def split: option.splits py_val.splits list.splits)

lemma check_output_error:
  "spec_caption_text out = None \<Longrightarrow> \<exists>msg. check_output w f out = Inl msg"
  by (induction w f out rule: check_output.induct)
     (auto simp: spec_caption_text_def split: option.splits py_val.splits list.splits)

lemma generate_caption_well_formed:
  "well_formed (cap img) \<Longrightarrow>
     \<exists>out t. cap img = Returns out \<and> spec_caption_text out = Some t
        \<and> generate_caption w cap f img = Inr (strip t)"
  by (cases "cap img") (auto simp: well_formed_def generate_caption_def check_output_text)

lemma generate_caption_ill_formed:
  "\<not> well_formed (cap img) \<Longrightarrow> \<exists>msg. generate_caption w cap f img = Inl msg"
proof (cases "cap img")
  case (Raises e)
  then show ?thesis by (simp add: generate_caption_def)
next
  case (Returns out)
  assume "\<not> well_formed (cap img)"
  with Returns have "spec_caption_text out = None" by (simp add: well_formed_def)
  from check_output_error [OF this, of w f] Returns show ?thesis
    by (simp add: generate_caption_def)
qed

lemma fails_iff: "fails w cap d f = candidate_fails w cap d f"
proof (cases "image_open w (path_join d f)")
  case FileNotFoundError
  then show ?thesis
    by (simp add: fails_def outcome_def process_image_def candidate_fails_def Let_def)
next
  case (LoadException e)
  then show ?thesis
    by (simp add: fails_def outcome_def process_image_def candidate_fails_def Let_def)
next
  case (Loaded img)
  show ?thesis
  proof (cases "well_formed (cap img)")
    case True
    from generate_caption_well_formed [of cap img w f] Loaded True show ?thesis
      by (auto simp: fails_def outcome_def process_image_def candidate_fails_def Let_def)
  next
    case False
    from generate_caption_ill_formed [of cap img w f] Loaded False show ?thesis
      by (auto simp: fails_def outcome_def process_image_def candidate_fails_def Let_def)
  qed
qed

lemma caption_item_path:
  "\<not> fails w cap d f \<Longrightarrow> image_path (caption_item w cap d f) = abspath w (path_join d f)"
  by (auto simp: fails_def outcome_def caption_item_def process_image_def Let_def
           split: load_outcome.splits sum.splits)

lemma opened_image_calls: "opened (image_calls w cap d f) = [path_join d f]"
  by (simp add: opened_def image_calls_def process_image_def Let_def split: load_outcome.splits)

lemma opened_append: "opened (xs @ ys) = opened xs @ opened ys"
  by (simp add: opened_def)

lemma opened_concat_image_calls:
  "opened (concat (map (image_calls w cap d) fs)) = map (path_join d) fs"
  by (induction fs) (simp_all add: opened_append opened_image_calls, simp add: opened_def)

lemma filter_single_failure:
  assumes "k < length xs" "P (xs ! k)" "\<forall>j<length xs. j \<noteq> k \<longrightarrow> \<not> P (xs ! j)"
  shows "filter P xs = [xs ! k]"
    and "filter (\<lambda>x. \<not> P x) xs = take k xs @ drop (Suc k) xs"
proof -
  have t: "\<forall>x\<in>set (take k xs). \<not> P x"
  proof
    fix x assume "x \<in> set (take k xs)"
    then obtain i where "i < length (take k xs)" "take k xs ! i = x"
      by (auto simp: in_set_conv_nth)
    with assms show "\<not> P x" by auto
  qed
  have d: "\<forall>x\<in>set (drop (Suc k) xs). \<not> P x"
  proof
    fix x assume "x \<in> set (drop (Suc k) xs)"
    then obtain i where i: "i < length (drop (Suc k) xs)" "drop (Suc k) xs ! i = x"
      by (auto simp: in_set_conv_nth)
    then have "Suc k + i < length xs" "xs ! (Suc k + i) = x" by auto
    with assms(3) show "\<not> P x" by auto
  qed
  have xs: "xs = take k xs @ xs ! k # drop (Suc k) xs"
    using assms(1) by (rule id_take_nth_drop)
  have "filter P xs = filter P (take k xs @ xs ! k # drop (Suc k) xs)"
    using xs by simp
  also have "\<dots> = [xs ! k]"
    using t d assms(2) by simp
  finally show "filter P xs = [xs ! k]" .
  have "filter (\<lambda>x. \<not> P x) xs = filter (\<lambda>x. \<not> P x) (take k xs @ xs ! k # drop (Suc k) xs)"
    using xs by simp
  also have "\<dots> = take k xs @ drop (Suc k) xs"
    using t d assms(2) by simp
  finally show "filter (\<lambda>x. \<not> P x) xs = take k xs @ drop (Suc k) xs" .
qed

lemma report_structure:
  assumes "captioner w = Some cap" "isdir w d" "listdir w d = Inr entries"
    "folder_location request = d" "filter is_image_filename entries = fs"
  obtains calls rep where
    "create_captions_for_images_in_folder w request = (calls, Inr rep)"
    "total_images_found rep = int (length fs)"
    "opened calls = map (path_join d) fs"
    "results rep = map (caption_item w cap d) (filter (\<lambda>f. \<not> candidate_fails w cap d f) fs)"
    "map image_path (results rep) =
       map (\<lambda>f. abspath w (path_join d f)) (filter (\<lambda>f. \<not> candidate_fails w cap d f) fs)"
    "errors rep = map (error_entry w cap d) (filter (candidate_fails w cap d) fs)"
    "list_all2 (\<lambda>f e. \<exists>msg. e = f @ '': '' @ msg) (filter (candidate_fails w cap d) fs)
       (errors rep)"
proof -
  let ?ok = "filter (\<lambda>f. \<not> candidate_fails w cap d f) fs"
  let ?bad = "filter (candidate_fails w cap d) fs"
  let ?calls = "[CallIsDir d, CallListDir d] @ concat (map (image_calls w cap d) fs)"
  let ?rep = "\<lparr>total_images_found = int (length fs),
          successfully_captioned = int (length ?ok),
          results = map (caption_item w cap d) ?ok,
          message =
            (if fs = [] then msg_no_images d
             else summary_message (int (length fs)) (int (length ?ok))
                    (map (error_entry w cap d) ?bad)),
          errors = map (error_entry w cap d) ?bad\<rparr>"
  have fi: "fails w cap d = candidate_fails w cap d"
    by (rule ext) (rule fails_iff)
  have eq: "create_captions_for_images_in_folder w request = (?calls, Inr ?rep)"
    using create_ready [OF assms] by (simp add: fi)
  have o: "opened ?calls = map (path_join d) fs"
  proof -
    have "opened [CallIsDir d, CallListDir d] = []" by (simp add: opened_def)
    then show ?thesis
      by (simp only: opened_append opened_concat_image_calls append_Nil)
  qed
  have p: "map image_path (map (caption_item w cap d) ?ok) =
       map (\<lambda>f. abspath w (path_join d f)) ?ok"
    by (simp add: caption_item_path fails_iff)
  have e: "list_all2 (\<lambda>f e. \<exists>msg. e = f @ '': '' @ msg) ?bad (map (error_entry w cap d) ?bad)"
    by (simp add: list_all2_map2 list.rel_refl_strong error_entry_def)
  show thesis
    by (rule that [OF eq]) (use o p e in simp_all)
qed

lemma process_image_loaded:
  assumes "image_open w (path_join d f) = Loaded img"
  shows "process_image w cap d f =
     ([CallImageOpen (path_join d f), CallCaptioner (path_join d f)],
      (case generate_caption w cap f img of
         Inl msg \<Rightarrow> Inl msg
       | Inr t \<Rightarrow> Inr \<lparr>image_path = abspath w (path_join d f), description = t\<rparr>))"
  using assms by (simp add: process_image_def Let_def)

lemma scenario_texts:
  "spec_caption_text (PyList [PyDict [(PyStr ''generated_text'', PyStr '' a cat on a sofa '')]])
     = Some '' a cat on a sofa ''"
  "spec_caption_text (PyList []) = None"
  "spec_caption_text PyNone = None"
  "spec_caption_text (PyList [PyDict [(PyStr ''label'', PyStr ''cat'')]]) = None"
  "spec_caption_text (PyList [PyDict [(PyStr ''generated_text'', PyNone)]]) = None"
  by (simp_all add: spec_caption_text_def)

lemma strip_cat: "strip '' a cat on a sofa '' = ''a cat on a sofa''"
  by code_simp

lemma abspath_scenario: "abspath scenario_world p = p"
  by (simp add: scenario_world_def)

lemma scenario_fails:
  "\<not> candidate_fails scenario_world caption_of ''/pics'' ''a.jpg''"
  "candidate_fails scenario_world caption_of ''/pics'' ''c.png''"
  "\<not> candidate_fails scenario_world caption_of ''/pics'' ''d.gif''"
  by code_simp+

lemma scenario_filter:
  "filter is_image_filename [''a.jpg'', ''b.txt'', ''c.png'', ''d.gif''] =
     [''a.jpg'', ''c.png'', ''d.gif'']"
  by code_simp

lemma endswith_iff: "endswith s suf \<longleftrightarrow> (\<exists>stem. s = stem @ suf)"
proof
  assume "endswith s suf"
  then have "s = take (length s - length suf) s @ suf"
    by (metis append_take_drop_id endswith_def)
  then show "\<exists>stem. s = stem @ suf" ..
next
  assume "\<exists>stem. s = stem @ suf"
  then show "endswith s suf" by (auto simp: endswith_def)
qed

lemma is_image_filename_iff:
  "is_image_filename f \<longleftrightarrow>
     (\<exists>stem ext. ext \<in> set SUPPORTED_EXTENSIONS \<and> lower f = stem @ ext)"
  by (auto simp: is_image_filename_def endswith_any_def list_ex_iff endswith_iff)

lemma holiday: "is_image_filename ''Holiday.JPG''" "lower ''Holiday.JPG'' = ''holiday'' @ ''.jpg''"
  "\<not> is_image_filename ''b.txt''"
  by code_simp+

lemma caption_item_eq:
  assumes "\<not> candidate_fails w cap d f"
  shows "\<exists>img out t. image_open w (path_join d f) = Loaded img \<and> cap img = Returns out
           \<and> spec_caption_text out = Some t
           \<and> caption_item w cap d f =
               \<lparr>image_path = abspath w (path_join d f), description = strip t\<rparr>"
proof (cases "image_open w (path_join d f)")
  case (Loaded img)
  with assms have "well_formed (cap img)" by (simp add: candidate_fails_def)
  from generate_caption_well_formed [of cap img w f, OF this] Loaded show ?thesis
    by (auto simp: caption_item_def outcome_def process_image_loaded)
qed (use assms in \<open>simp_all add: candidate_fails_def\<close>)

lemma caption_item_cong:
  assumes "image_open w2 = image_open w1" "abspath w2 = abspath w1"
    "\<not> candidate_fails w1 cap d f"
  shows "caption_item w2 cap d f = caption_item w1 cap d f"
proof -
  from assms have n2: "\<not> candidate_fails w2 cap d f" by (simp add: candidate_fails_def)
  from caption_item_eq [OF assms(3)] caption_item_eq [OF n2] assms(1,2) show ?thesis
    by auto
qed

lemma rerun_report:
  "create_captions_for_images_in_folder rerun_world pics_request =
     (scenario_calls, Inr rerun_summary)"
  by code_simp

lemma echo_report:
  "create_captions_for_images_in_folder echo_world pics_request =
     (scenario_calls, Inr scenario_summary)"
  by code_simp

lemma rerun_well_formed: "well_formed (other_caption_of img) = well_formed (caption_of img)"
  by (simp add: well_formed_def other_caption_of_def caption_of_def spec_caption_text_def)

section \<open>Engine not ready\<close>

text \<open>
  C7. A request made while the captioner handle is \<open>None\<close> fails at once with the
  503 "service unavailable" error, whatever the directory holds: no call is made to the
  file system, to the decoder or to the engine, and no report is produced.
\<close>

theorem engine_not_ready_unavailable:
  "captioner w = None \<Longrightarrow>
     create_captions_for_images_in_folder w request =
       ([], Inl (HTTPException 503 ''Captioning service is unavailable. Model not loaded.''))"
  by (simp add: create_captions_for_images_in_folder_def)

theorem engine_not_ready_unavailable_witness:
  "captioner unready_world = None \<and>
   create_captions_for_images_in_folder unready_world pics_request =
     ([], Inl (HTTPException 503 ''Captioning service is unavailable. Model not loaded.''))"
proof -
  have h: "captioner unready_world = None"
    by (simp add: unready_world_def)
  show ?thesis
    using h engine_not_ready_unavailable [OF h, of pics_request] by simp
qed

section \<open>Folder that is no directory\<close>

text \<open>
  C8, as stated, at a request for a missing folder while the engine is not ready: the
  answer is the 503 error of the engine check, which comes first, not the 400 error.
\<close>

theorem invalid_folder_counterexample:
  "\<not> isdir unready_world (folder_location missing_request) \<and>
   create_captions_for_images_in_folder unready_world missing_request =
     ([], Inl (HTTPException 503 ''Captioning service is unavailable. Model not loaded.''))"
  by (simp add: unready_world_def scenario_world_def missing_request_def
        create_captions_for_images_in_folder_def)

text \<open>
  C8, amended. A request made while the engine is ready whose \<open>folder_location\<close> is
  not an existing directory fails with the 400 "invalid input" error: the directory is
  not listed, no image is touched, and no report is produced.
\<close>

theorem invalid_folder_rejected:
  "captioner w = Some cap \<Longrightarrow> \<not> isdir w (folder_location request) \<Longrightarrow>
     create_captions_for_images_in_folder w request =
       ([CallIsDir (folder_location request)],
        Inl (HTTPException 400
               (''The folder '' @ quoted (folder_location request)
                  @ '' does not exist or is not a directory.'')))"
  by (simp add: create_captions_for_images_in_folder_def Let_def)

theorem invalid_folder_rejected_witness:
  "captioner scenario_world = Some caption_of \<and>
   \<not> isdir scenario_world (folder_location missing_request) \<and>
   create_captions_for_images_in_folder scenario_world missing_request =
     ([CallIsDir ''/missing''],
      Inl (HTTPException 400 ''The folder '/missing' does not exist or is not a directory.''))"
proof -
  have h1: "captioner scenario_world = Some caption_of"
    by (simp add: scenario_world_def)
  have h2: "\<not> isdir scenario_world (folder_location missing_request)"
    by (simp add: scenario_world_def missing_request_def)
  show ?thesis
    using h1 h2 invalid_folder_rejected [OF h1 h2]
    by (simp add: missing_request_def quoted_def)
qed

section \<open>Directory without images\<close>

text \<open>
  C6, as stated, at an existing directory while the engine is not ready: the request
  fails with the 503 error, whatever the directory holds.
\<close>

theorem no_images_counterexample:
  "isdir unready_notes_world (folder_location pics_request) \<and>
   listdir unready_notes_world (folder_location pics_request) =
     Inr [''notes.txt'', ''archive'', ''photo.png.bak''] \<and>
   filter is_image_filename [''notes.txt'', ''archive'', ''photo.png.bak''] = [] \<and>
   create_captions_for_images_in_folder unready_notes_world pics_request =
     ([], Inl (HTTPException 503 ''Captioning service is unavailable. Model not loaded.''))"
  using notes_filter
  by (simp add: unready_notes_world_def notes_world_def scenario_world_def pics_request_def
        create_captions_for_images_in_folder_def)

text \<open>
  C6, amended. A request made while the engine is ready, for an existing directory
  whose listing succeeds and holds no name with a supported extension, succeeds: the
  report has \<open>total_images_found = 0\<close>, \<open>successfully_captioned = 0\<close>, no results,
  no errors, and the fixed "no images" message; no image is opened.
\<close>

theorem no_images_report:
  assumes "captioner w = Some cap" "isdir w (folder_location request)"
    "listdir w (folder_location request) = Inr entries"
    "filter is_image_filename entries = []"
  shows "create_captions_for_images_in_folder w request =
     ([CallIsDir (folder_location request), CallListDir (folder_location request)],
      Inr \<lparr>total_images_found = 0, successfully_captioned = 0, results = [],
           message = ''No images with supported extensions ('.png', '.jpg', '.jpeg', '.bmp', '.gif', '.webp') found in the folder: '' @ folder_location request,
           errors = []\<rparr>)"
  using create_ready [OF assms(1-3) refl assms(4)] by (simp add: msg_no_images_text)

theorem no_images_report_witness:
  "captioner notes_world = Some caption_of \<and>
   isdir notes_world (folder_location pics_request) \<and>
   listdir notes_world (folder_location pics_request) =
     Inr [''notes.txt'', ''archive'', ''photo.png.bak''] \<and>
   filter is_image_filename [''notes.txt'', ''archive'', ''photo.png.bak''] = [] \<and>
   create_captions_for_images_in_folder notes_world pics_request =
     ([CallIsDir ''/pics'', CallListDir ''/pics''],
      Inr \<lparr>total_images_found = 0, successfully_captioned = 0, results = [],
           message = ''No images with supported extensions ('.png', '.jpg', '.jpeg', '.bmp', '.gif', '.webp') found in the folder: /pics'',
           errors = []\<rparr>)"
proof -
  have h1: "captioner notes_world = Some caption_of"
    by (simp add: notes_world_def scenario_world_def)
  have h2: "isdir notes_world (folder_location pics_request)"
    by (simp add: notes_world_def scenario_world_def pics_request_def)
  have h3: "listdir notes_world (folder_location pics_request) =
      Inr [''notes.txt'', ''archive'', ''photo.png.bak'']"
    by (simp add: notes_world_def scenario_world_def)
  show ?thesis
    using h1 h2 h3 notes_filter no_images_report [OF h1 h2 h3 notes_filter]
    by (simp add: pics_request_def)
qed

section \<open>Counts of a report\<close>

text \<open>
  C2. Every report the endpoint returns has \<open>successfully_captioned\<close> equal to the
  number of results, and results and errors together are no more than
  \<open>total_images_found\<close>.
\<close>

theorem report_counts_invariant:
  assumes "create_captions_for_images_in_folder w request = (calls, Inr rep)"
  shows "successfully_captioned rep = int (length (results rep)) \<and>
         int (length (results rep)) + int (length (errors rep)) \<le> total_images_found rep"
  using report_lengths [OF assms] by simp

theorem report_counts_invariant_witness:
  "create_captions_for_images_in_folder scenario_world pics_request =
     (scenario_calls, Inr scenario_summary) \<and>
   successfully_captioned scenario_summary = int (length (results scenario_summary)) \<and>
   int (length (results scenario_summary)) + int (length (errors scenario_summary))
     \<le> total_images_found scenario_summary"
  using scenario_report report_counts_invariant [OF scenario_report] by simp

section \<open>Every candidate is accounted for\<close>

text \<open>
  C10. Each iteration of the loop appends exactly one entry, one item to the results
  or one string to the errors, and goes on with the remaining candidates. Hence every
  report with \<open>total_images_found > 0\<close> has as many results and errors together as
  images found, and the condition of the discrepancy guard of line 214 is false for it.
\<close>

theorem every_candidate_accounted:
  "(caption_loop w cap d (f # rest) (rs, es, cs) =
      caption_loop w cap d rest (rs @ [caption_item w cap d f], es, cs @ image_calls w cap d f)
    \<or> caption_loop w cap d (f # rest) (rs, es, cs) =
      caption_loop w cap d rest (rs, es @ [error_entry w cap d f], cs @ image_calls w cap d f))
   \<and> (create_captions_for_images_in_folder w request = (calls, Inr rep)
        \<and> 0 < total_images_found rep \<longrightarrow>
      int (length (results rep)) + int (length (errors rep)) = total_images_found rep
      \<and> message rep =
          summary_message (total_images_found rep) (successfully_captioned rep) (errors rep)
      \<and> \<not> discrepancy (total_images_found rep) (successfully_captioned rep) (errors rep))"
proof (intro conjI impI)
  show "caption_loop w cap d (f # rest) (rs, es, cs) =
      caption_loop w cap d rest (rs @ [caption_item w cap d f], es, cs @ image_calls w cap d f)
    \<or> caption_loop w cap d (f # rest) (rs, es, cs) =
      caption_loop w cap d rest (rs, es @ [error_entry w cap d f], cs @ image_calls w cap d f)"
    by (cases "fails w cap d f") (simp_all only: caption_loop_step if_True if_False simp_thms)
next
  assume a: "create_captions_for_images_in_folder w request = (calls, Inr rep)
        \<and> 0 < total_images_found rep"
  then have c: "create_captions_for_images_in_folder w request = (calls, Inr rep)"
    and pos: "0 < total_images_found rep" by simp_all
  note len = report_lengths [OF c]
  show "int (length (results rep)) + int (length (errors rep)) = total_images_found rep"
    by (rule len(1))
  from report_message [OF c pos] len(2) show "message rep =
      summary_message (total_images_found rep) (successfully_captioned rep) (errors rep)"
    by simp
  show "\<not> discrepancy (total_images_found rep) (successfully_captioned rep) (errors rep)"
    using len by (auto simp: discrepancy_def)
qed

theorem every_candidate_accounted_witness:
  "create_captions_for_images_in_folder scenario_world pics_request =
     (scenario_calls, Inr scenario_summary)
   \<and> 0 < total_images_found scenario_summary
   \<and> int (length (results scenario_summary)) + int (length (errors scenario_summary))
       = total_images_found scenario_summary
   \<and> \<not> discrepancy (total_images_found scenario_summary)
         (successfully_captioned scenario_summary) (errors scenario_summary)"
proof -
  have pos: "0 < total_images_found scenario_summary"
    by (simp add: scenario_summary_def)
  show ?thesis
    using scenario_report pos
      every_candidate_accounted [of scenario_world caption_of "''/pics''" "''a.jpg''" "[]" "[]" "[]" "[]"
        pics_request scenario_calls scenario_summary]
    by simp
qed

section \<open>The summary message\<close>



section \<open>Validation of the engine output\<close>

text \<open>
  C5. When the image of a candidate decodes and the captioner call returns, the output
  is checked: if it is a non-empty list whose first element carries a textual
  \<open>generated_text\<close>, the loop appends one item with the absolute path of the image
  and the text stripped of surrounding whitespace; any other output is recorded as one
  error string for that candidate. In both cases the loop goes on with the remaining
  candidates.
\<close>

theorem caption_output_validated:
  assumes "image_open w (path_join d f) = Loaded img" "cap img = Returns out"
  shows "case spec_caption_text out of
           Some t \<Rightarrow>
             caption_loop w cap d (f # rest) (rs, es, cs) =
               caption_loop w cap d rest
                 (rs @ [\<lparr>image_path = abspath w (path_join d f), description = strip t\<rparr>],
                  es,
                  cs @ [CallImageOpen (path_join d f), CallCaptioner (path_join d f)])
         | None \<Rightarrow>
             (\<exists>msg. caption_loop w cap d (f # rest) (rs, es, cs) =
               caption_loop w cap d rest
                 (rs, es @ [f @ '': '' @ msg],
                  cs @ [CallImageOpen (path_join d f), CallCaptioner (path_join d f)]))"
proof (cases "spec_caption_text out")
  case None
  from check_output_error [OF None, of w f] obtain msg where
    "check_output w f out = Inl msg" by blast
  with assms None show ?thesis
    by (auto simp: process_image_loaded generate_caption_def)
next
  case (Some t)
  with assms check_output_text [OF Some, of w f] show ?thesis
    by (simp add: process_image_loaded generate_caption_def)
qed

theorem caption_output_validated_witness:
  "image_open scenario_world (path_join ''/pics'' ''a.jpg'') = Loaded 1
   \<and> caption_of 1 =
       Returns (PyList [PyDict [(PyStr ''generated_text'', PyStr '' a cat on a sofa '')]])
   \<and> caption_loop scenario_world caption_of ''/pics'' [''a.jpg''] ([], [], []) =
       ([\<lparr>image_path = ''/pics/a.jpg'', description = ''a cat on a sofa''\<rparr>], [],
        [CallImageOpen ''/pics/a.jpg'', CallCaptioner ''/pics/a.jpg''])
   \<and> (\<exists>msg. caption_loop scenario_world (\<lambda>img. Returns (PyList [])) ''/pics'' [''a.jpg'']
                ([], [], []) =
          ([], [''a.jpg: '' @ msg], [CallImageOpen ''/pics/a.jpg'', CallCaptioner ''/pics/a.jpg'']))"
proof -
  have p: "path_join ''/pics'' ''a.jpg'' = ''/pics/a.jpg''"
    by (simp add: path_join_def)
  have h1: "image_open scenario_world (path_join ''/pics'' ''a.jpg'') = Loaded 1"
    by (simp add: scenario_world_def p)
  have h2: "caption_of 1 =
       Returns (PyList [PyDict [(PyStr ''generated_text'', PyStr '' a cat on a sofa '')]])"
    by (simp add: caption_of_def)
  have h3: "(\<lambda>img::nat. Returns (PyList [])) 1 = Returns (PyList [])"
    by simp
  show ?thesis
    using h1 h2
      caption_output_validated [of scenario_world "''/pics''" "''a.jpg''" 1 caption_of
        "PyList [PyDict [(PyStr ''generated_text'', PyStr '' a cat on a sofa '')]]"
        "[]" "[]" "[]" "[]", OF h1 h2]
      caption_output_validated [of scenario_world "''/pics''" "''a.jpg''" 1
        "\<lambda>img. Returns (PyList [])" "PyList []" "[]" "[]" "[]" "[]", OF h1 h3]
    by (simp add: scenario_texts strip_cat p abspath_scenario)
qed

section \<open>Failure isolation\<close>

text \<open>
  C1. For every candidate list that reaches the loop, the request ends with a report:
  every candidate is opened, in listing order, whatever happened to the ones before it;
  each failing candidate has exactly one error entry, which starts with its file name,
  and each other candidate one result, both in listing order. In particular, when
  candidate \<open>k\<close> is the only one that fails, the errors are the one entry for
  candidate \<open>k\<close> and the results are those of the \<open>N - 1\<close> other candidates in
  their relative order.
\<close>

theorem failure_isolation:
  assumes "captioner w = Some cap" "isdir w d" "listdir w d = Inr entries"
    "folder_location request = d" "filter is_image_filename entries = fs"
  shows "\<exists>calls rep.
      create_captions_for_images_in_folder w request = (calls, Inr rep)
    \<and> opened calls = map (path_join d) fs
    \<and> map image_path (results rep) =
        map (\<lambda>f. abspath w (path_join d f)) (filter (\<lambda>f. \<not> candidate_fails w cap d f) fs)
    \<and> list_all2 (\<lambda>f e. \<exists>msg. e = f @ '': '' @ msg)
        (filter (candidate_fails w cap d) fs) (errors rep)
    \<and> (k < length fs \<and> candidate_fails w cap d (fs ! k)
         \<and> (\<forall>j<length fs. j \<noteq> k \<longrightarrow> \<not> candidate_fails w cap d (fs ! j)) \<longrightarrow>
          (\<exists>msg. errors rep = [fs ! k @ '': '' @ msg])
        \<and> length (results rep) = length fs - 1
        \<and> map image_path (results rep) =
            map (\<lambda>f. abspath w (path_join d f)) (take k fs @ drop (Suc k) fs))"
proof -
  from assms obtain calls rep where
    c: "create_captions_for_images_in_folder w request = (calls, Inr rep)" and
    o: "opened calls = map (path_join d) fs" and
    p: "map image_path (results rep) =
       map (\<lambda>f. abspath w (path_join d f)) (filter (\<lambda>f. \<not> candidate_fails w cap d f) fs)" and
    e: "list_all2 (\<lambda>f e. \<exists>msg. e = f @ '': '' @ msg) (filter (candidate_fails w cap d) fs)
       (errors rep)"
    by (rule report_structure)
  have one: "(\<exists>msg. errors rep = [fs ! k @ '': '' @ msg])
        \<and> length (results rep) = length fs - 1
        \<and> map image_path (results rep) =
            map (\<lambda>f. abspath w (path_join d f)) (take k fs @ drop (Suc k) fs)"
    if k: "k < length fs" and bad: "candidate_fails w cap d (fs ! k)"
      and rest: "\<forall>j<length fs. j \<noteq> k \<longrightarrow> \<not> candidate_fails w cap d (fs ! j)"
  proof -
    note f = filter_single_failure [of k fs "candidate_fails w cap d", OF k bad rest]
    from e have "\<exists>msg. errors rep = [fs ! k @ '': '' @ msg]"
      unfolding f(1) by (auto simp: list_all2_Cons1)
    moreover from p have q: "map image_path (results rep) =
            map (\<lambda>f. abspath w (path_join d f)) (take k fs @ drop (Suc k) fs)"
      unfolding f(2) .
    moreover have "length (results rep) = length fs - 1"
    proof -
      have "length (results rep) = length (map image_path (results rep))" by simp
      also have "\<dots> = length (take k fs @ drop (Suc k) fs)" unfolding q by simp
      also have "\<dots> = length fs - 1" using k by simp
      finally show ?thesis .
    qed
    ultimately show ?thesis by blast
  qed
  from c o p e one show ?thesis by blast
qed

theorem failure_isolation_witness:
  "captioner scenario_world = Some caption_of \<and> isdir scenario_world ''/pics''
   \<and> listdir scenario_world ''/pics'' = Inr [''a.jpg'', ''b.txt'', ''c.png'', ''d.gif'']
   \<and> filter is_image_filename [''a.jpg'', ''b.txt'', ''c.png'', ''d.gif''] =
        [''a.jpg'', ''c.png'', ''d.gif'']
   \<and> candidate_fails scenario_world caption_of ''/pics'' ([''a.jpg'', ''c.png'', ''d.gif''] ! 1)
   \<and> \<not> candidate_fails scenario_world caption_of ''/pics'' ([''a.jpg'', ''c.png'', ''d.gif''] ! 0)
   \<and> \<not> candidate_fails scenario_world caption_of ''/pics'' ([''a.jpg'', ''c.png'', ''d.gif''] ! 2)
   \<and> create_captions_for_images_in_folder scenario_world pics_request =
        (scenario_calls, Inr scenario_summary)
   \<and> opened scenario_calls = [''/pics/a.jpg'', ''/pics/c.png'', ''/pics/d.gif'']
   \<and> (\<exists>msg. errors scenario_summary = [''c.png: '' @ msg])
   \<and> length (results scenario_summary) = 2
   \<and> map image_path (results scenario_summary) = [''/pics/a.jpg'', ''/pics/d.gif'']"
proof -
  have h1: "captioner scenario_world = Some caption_of"
    and h2: "isdir scenario_world ''/pics''"
    and h3: "listdir scenario_world ''/pics'' = Inr [''a.jpg'', ''b.txt'', ''c.png'', ''d.gif'']"
    and h4: "folder_location pics_request = ''/pics''"
    by (simp_all add: scenario_world_def pics_request_def)
  have k: "candidate_fails scenario_world caption_of ''/pics'' ([''a.jpg'', ''c.png'', ''d.gif''] ! 1)"
    by (simp add: scenario_fails)
  have r: "\<forall>j<length [''a.jpg'', ''c.png'', ''d.gif''::string]. j \<noteq> 1 \<longrightarrow>
         \<not> candidate_fails scenario_world caption_of ''/pics'' ([''a.jpg'', ''c.png'', ''d.gif''] ! j)"
    by (simp add: scenario_fails less_Suc_eq nth_Cons')
  have p: "path_join ''/pics'' ''a.jpg'' = ''/pics/a.jpg''"
    "path_join ''/pics'' ''c.png'' = ''/pics/c.png''"
    "path_join ''/pics'' ''d.gif'' = ''/pics/d.gif''"
    by (simp_all add: path_join_def)
  from failure_isolation [OF h1 h2 h3 h4 scenario_filter, of 1] k r
  have "opened scenario_calls = [''/pics/a.jpg'', ''/pics/c.png'', ''/pics/d.gif'']
   \<and> (\<exists>msg. errors scenario_summary = [''c.png: '' @ msg])
   \<and> length (results scenario_summary) = 2
   \<and> map image_path (results scenario_summary) = [''/pics/a.jpg'', ''/pics/d.gif'']"
    unfolding scenario_report by (simp add: p abspath_scenario scenario_fails)
  with h1 h2 h3 scenario_filter k scenario_report show ?thesis
    by (simp add: scenario_fails)
qed

section \<open>The extension filter\<close>

text \<open>
  C4, as stated, at a directory that holds a subdirectory \<open>album.png\<close>: the
  subdirectory is kept as a candidate, counted in \<open>total_images_found\<close>, and ends
  in the errors.
\<close>

theorem album_counterexample:
  "isdir album_world (path_join ''/pics'' ''album.png'')
   \<and> listdir album_world ''/pics'' = Inr [''album.png'', ''notes.txt'']
   \<and> create_captions_for_images_in_folder album_world pics_request =
       ([CallIsDir ''/pics'', CallListDir ''/pics'', CallImageOpen ''/pics/album.png''],
        Inr album_summary)"
  by code_simp

text \<open>
  C4, amended. An entry is kept as a candidate exactly when its name, lowered, ends in
  one of the six extensions, whether it is a file or a subdirectory. The report counts
  the kept entries only, opens the kept entries only, and makes its results and errors
  from kept entries only: an entry whose name does not match appears in none of them.
\<close>

theorem extension_filter:
  "(is_image_filename f \<longleftrightarrow>
      (\<exists>stem ext. ext \<in> set [''.png'', ''.jpg'', ''.jpeg'', ''.bmp'', ''.gif'', ''.webp'']
          \<and> lower f = stem @ ext))
   \<and> (captioner w = Some cap \<and> isdir w d \<and> listdir w d = Inr entries
        \<and> folder_location request = d \<longrightarrow>
       (\<exists>calls rep.
          create_captions_for_images_in_folder w request = (calls, Inr rep)
        \<and> total_images_found rep = int (length (filter is_image_filename entries))
        \<and> opened calls = map (path_join d) (filter is_image_filename entries)
        \<and> map image_path (results rep) =
            map (\<lambda>f. abspath w (path_join d f))
              (filter (\<lambda>f. \<not> candidate_fails w cap d f) (filter is_image_filename entries))
        \<and> list_all2 (\<lambda>f e. \<exists>msg. e = f @ '': '' @ msg)
            (filter (candidate_fails w cap d) (filter is_image_filename entries)) (errors rep)))"
proof (intro conjI impI)
  show "is_image_filename f \<longleftrightarrow>
      (\<exists>stem ext. ext \<in> set [''.png'', ''.jpg'', ''.jpeg'', ''.bmp'', ''.gif'', ''.webp'']
          \<and> lower f = stem @ ext)"
    using is_image_filename_iff [of f] by (simp only: SUPPORTED_EXTENSIONS_def)
next
  assume a: "captioner w = Some cap \<and> isdir w d \<and> listdir w d = Inr entries
        \<and> folder_location request = d"
  define fs where "fs = filter is_image_filename entries"
  from a have r: "captioner w = Some cap" "isdir w d" "listdir w d = Inr entries"
    "folder_location request = d" by simp_all
  from report_structure [OF r fs_def [symmetric]]
  show "\<exists>calls rep.
          create_captions_for_images_in_folder w request = (calls, Inr rep)
        \<and> total_images_found rep = int (length (filter is_image_filename entries))
        \<and> opened calls = map (path_join d) (filter is_image_filename entries)
        \<and> map image_path (results rep) =
            map (\<lambda>f. abspath w (path_join d f))
              (filter (\<lambda>f. \<not> candidate_fails w cap d f) (filter is_image_filename entries))
        \<and> list_all2 (\<lambda>f e. \<exists>msg. e = f @ '': '' @ msg)
            (filter (candidate_fails w cap d) (filter is_image_filename entries)) (errors rep)"
    unfolding fs_def by blast
qed

theorem extension_filter_witness:
  "is_image_filename ''Holiday.JPG''
   \<and> ''.jpg'' \<in> set [''.png'', ''.jpg'', ''.jpeg'', ''.bmp'', ''.gif'', ''.webp'']
   \<and> lower ''Holiday.JPG'' = ''holiday'' @ ''.jpg''
   \<and> captioner scenario_world = Some caption_of \<and> isdir scenario_world ''/pics''
   \<and> listdir scenario_world ''/pics'' = Inr [''a.jpg'', ''b.txt'', ''c.png'', ''d.gif'']
   \<and> folder_location pics_request = ''/pics''
   \<and> \<not> is_image_filename ''b.txt''
   \<and> create_captions_for_images_in_folder scenario_world pics_request =
        (scenario_calls, Inr scenario_summary)
   \<and> total_images_found scenario_summary = 3
   \<and> opened scenario_calls = [''/pics/a.jpg'', ''/pics/c.png'', ''/pics/d.gif'']
   \<and> map image_path (results scenario_summary) = [''/pics/a.jpg'', ''/pics/d.gif'']"
proof -
  have h: "captioner scenario_world = Some caption_of \<and> isdir scenario_world ''/pics''
     \<and> listdir scenario_world ''/pics'' = Inr [''a.jpg'', ''b.txt'', ''c.png'', ''d.gif'']
     \<and> folder_location pics_request = ''/pics''"
    by (simp add: scenario_world_def pics_request_def)
  have p: "path_join ''/pics'' ''a.jpg'' = ''/pics/a.jpg''"
    "path_join ''/pics'' ''c.png'' = ''/pics/c.png''"
    "path_join ''/pics'' ''d.gif'' = ''/pics/d.gif''"
    by (simp_all add: path_join_def)
  from extension_filter [of "''Holiday.JPG''" scenario_world caption_of "''/pics''"
      "[''a.jpg'', ''b.txt'', ''c.png'', ''d.gif'']" pics_request] h
  have "total_images_found scenario_summary = 3
   \<and> opened scenario_calls = [''/pics/a.jpg'', ''/pics/c.png'', ''/pics/d.gif'']
   \<and> map image_path (results scenario_summary) = [''/pics/a.jpg'', ''/pics/d.gif'']"
    unfolding scenario_report scenario_filter
    by (simp add: p abspath_scenario scenario_fails)
  with h holiday scenario_report show ?thesis by simp
qed

section \<open>Repeated requests\<close>

text \<open>
  C9, as stated, at two requests for the same directory with a ready engine, where the
  engine raises on the first image in the second request only: the results name
  different files.
\<close>

theorem repeated_runs_counterexample:
  "isdir flaky_world = isdir scenario_world
   \<and> listdir flaky_world = listdir scenario_world
   \<and> image_open flaky_world = image_open scenario_world
   \<and> create_captions_for_images_in_folder scenario_world pics_request =
       (scenario_calls, Inr scenario_summary)
   \<and> create_captions_for_images_in_folder flaky_world pics_request =
       (flaky_calls, Inr flaky_summary)
   \<and> map image_path (results scenario_summary) = [''/pics/a.jpg'', ''/pics/d.gif'']
   \<and> map image_path (results flaky_summary) = [''/pics/d.gif'']"
proof -
  have "create_captions_for_images_in_folder flaky_world pics_request =
       (flaky_calls, Inr flaky_summary)"
    by code_simp
  then show ?thesis
    using scenario_report
    by (simp add: flaky_world_def scenario_summary_def flaky_summary_def)
qed

text \<open>
  C9, amended. Two requests for the same unchanged directory with a ready engine both
  end with a report and find the same number of images. When the engine's outcome on
  every image is of the same kind in both requests (a well-formed caption, or a
  failure), the results name the same files and the errors name the same files, in the
  same order. When the engine gives the same outcome on every image in both requests,
  the results, descriptions included, are identical.
\<close>

theorem repeated_runs:
  assumes "captioner w1 = Some c1" "captioner w2 = Some c2"
    "isdir w2 = isdir w1" "listdir w2 = listdir w1"
    "image_open w2 = image_open w1" "abspath w2 = abspath w1"
    "folder_location request = d" "listdir w1 d = Inr entries"
    "create_captions_for_images_in_folder w1 request = (calls1, Inr rep1)"
  shows "\<exists>calls2 rep2.
      create_captions_for_images_in_folder w2 request = (calls2, Inr rep2)
    \<and> total_images_found rep2 = total_images_found rep1
    \<and> ((\<forall>img. well_formed (c2 img) = well_formed (c1 img)) \<longrightarrow>
          map image_path (results rep2) = map image_path (results rep1)
        \<and> list_all2 (\<lambda>f e. \<exists>msg. e = f @ '': '' @ msg)
            (filter (candidate_fails w1 c1 d) (filter is_image_filename entries)) (errors rep1)
        \<and> list_all2 (\<lambda>f e. \<exists>msg. e = f @ '': '' @ msg)
            (filter (candidate_fails w1 c1 d) (filter is_image_filename entries)) (errors rep2))
    \<and> ((\<forall>img. c2 img = c1 img) \<longrightarrow> results rep2 = results rep1)"
proof -
  define fs where "fs = filter is_image_filename entries"
  let ?P = "\<lambda>f e. \<exists>msg. e = f @ '': '' @ msg"
  have dir1: "isdir w1 d"
    using create_report_ready [OF assms(9)] assms(7) by auto
  obtain calls1' rep1' where
    c1: "create_captions_for_images_in_folder w1 request = (calls1', Inr rep1')" and
    t1: "total_images_found rep1' = int (length fs)" and
    o1: "opened calls1' = map (path_join d) fs" and
    r1: "results rep1' = map (caption_item w1 c1 d) (filter (\<lambda>f. \<not> candidate_fails w1 c1 d f) fs)" and
    p1: "map image_path (results rep1') =
       map (\<lambda>f. abspath w1 (path_join d f)) (filter (\<lambda>f. \<not> candidate_fails w1 c1 d f) fs)" and
    x1: "errors rep1' = map (error_entry w1 c1 d) (filter (candidate_fails w1 c1 d) fs)" and
    e1: "list_all2 ?P (filter (candidate_fails w1 c1 d) fs) (errors rep1')"
    by (rule report_structure [OF assms(1) dir1 assms(8) assms(7) fs_def [symmetric]])
  from c1 assms(9) have same: "rep1' = rep1" by simp
  have dir2: "isdir w2 d" "listdir w2 d = Inr entries"
    using dir1 assms(3,4,8) by simp_all
  obtain calls2 rep2 where
    c2: "create_captions_for_images_in_folder w2 request = (calls2, Inr rep2)" and
    t2: "total_images_found rep2 = int (length fs)" and
    o2: "opened calls2 = map (path_join d) fs" and
    r2: "results rep2 = map (caption_item w2 c2 d) (filter (\<lambda>f. \<not> candidate_fails w2 c2 d f) fs)" and
    p2: "map image_path (results rep2) =
       map (\<lambda>f. abspath w2 (path_join d f)) (filter (\<lambda>f. \<not> candidate_fails w2 c2 d f) fs)" and
    x2: "errors rep2 = map (error_entry w2 c2 d) (filter (candidate_fails w2 c2 d) fs)" and
    e2: "list_all2 ?P (filter (candidate_fails w2 c2 d) fs) (errors rep2)"
    by (rule report_structure [OF assms(2) dir2 assms(7) fs_def [symmetric]])
  have kind: "map image_path (results rep2) = map image_path (results rep1)
        \<and> list_all2 ?P (filter (candidate_fails w1 c1 d) fs) (errors rep1)
        \<and> list_all2 ?P (filter (candidate_fails w1 c1 d) fs) (errors rep2)"
    if wf: "\<forall>img. well_formed (c2 img) = well_formed (c1 img)"
  proof -
    have "candidate_fails w2 c2 d = candidate_fails w1 c1 d"
      using wf assms(5) by (auto simp: candidate_fails_def fun_eq_iff split: load_outcome.splits)
    with p1 p2 e1 e2 same assms(6) show ?thesis by simp
  qed
  have det: "results rep2 = results rep1" if eq: "\<forall>img. c2 img = c1 img"
  proof -
    from eq have c: "c2 = c1" by (simp add: fun_eq_iff)
    have f: "candidate_fails w2 c1 d = candidate_fails w1 c1 d"
      using assms(5) by (simp add: candidate_fails_def fun_eq_iff)
    have "map (caption_item w2 c1 d) (filter (\<lambda>f. \<not> candidate_fails w1 c1 d f) fs) =
          map (caption_item w1 c1 d) (filter (\<lambda>f. \<not> candidate_fails w1 c1 d f) fs)"
      by (rule map_cong [OF refl]) (simp add: caption_item_cong [OF assms(5,6)])
    with r1 r2 same c f show ?thesis by simp
  qed
  from t1 t2 same have t: "total_images_found rep2 = total_images_found rep1" by simp
  show ?thesis
    unfolding fs_def [symmetric]
    by (intro exI conjI impI) (rule c2, rule t, (use kind in blast)+, use det in blast)
qed

theorem repeated_runs_witness:
  "captioner scenario_world = Some caption_of \<and> captioner rerun_world = Some other_caption_of
   \<and> isdir rerun_world = isdir scenario_world \<and> listdir rerun_world = listdir scenario_world
   \<and> image_open rerun_world = image_open scenario_world
   \<and> abspath rerun_world = abspath scenario_world
   \<and> listdir scenario_world ''/pics'' = Inr [''a.jpg'', ''b.txt'', ''c.png'', ''d.gif'']
   \<and> (\<forall>img. well_formed (other_caption_of img) = well_formed (caption_of img))
   \<and> create_captions_for_images_in_folder scenario_world pics_request =
        (scenario_calls, Inr scenario_summary)
   \<and> create_captions_for_images_in_folder rerun_world pics_request =
        (scenario_calls, Inr rerun_summary)
   \<and> total_images_found rerun_summary = total_images_found scenario_summary
   \<and> map image_path (results rerun_summary) = map image_path (results scenario_summary)
   \<and> captioner echo_world = Some caption_of
   \<and> create_captions_for_images_in_folder echo_world pics_request =
        (scenario_calls, Inr scenario_summary)"
proof -
  have h1: "captioner scenario_world = Some caption_of"
    and h2: "captioner rerun_world = Some other_caption_of"
    and h3: "isdir rerun_world = isdir scenario_world"
    and h4: "listdir rerun_world = listdir scenario_world"
    and h5: "image_open rerun_world = image_open scenario_world"
    and h6: "abspath rerun_world = abspath scenario_world"
    and h7: "folder_location pics_request = ''/pics''"
    and h8: "listdir scenario_world ''/pics'' = Inr [''a.jpg'', ''b.txt'', ''c.png'', ''d.gif'']"
    by (simp_all add: rerun_world_def scenario_world_def pics_request_def)
  from repeated_runs [OF h1 h2 h3 h4 h5 h6 h7 h8 scenario_report] rerun_well_formed
  have a: "total_images_found rerun_summary = total_images_found scenario_summary
     \<and> map image_path (results rerun_summary) = map image_path (results scenario_summary)"
    unfolding rerun_report by simp
  have e1: "captioner echo_world = Some caption_of"
    and e3: "isdir echo_world = isdir scenario_world"
    and e4: "listdir echo_world = listdir scenario_world"
    and e5: "image_open echo_world = image_open scenario_world"
    and e6: "abspath echo_world = abspath scenario_world"
    by (simp_all add: echo_world_def scenario_world_def)
  from repeated_runs [OF h1 e1 e3 e4 e5 e6 h7 h8 scenario_report]
  have b: "create_captions_for_images_in_folder echo_world pics_request =
        (scenario_calls, Inr scenario_summary)"
    unfolding echo_report by simp
  from h1 h2 h3 h4 h5 h6 h8 rerun_well_formed scenario_report rerun_report a e1 b
  show ?thesis by simp
qed

end
